theory Spec2Isabelle
  imports Complex_Main "HOL-Library.Log_Nat"
begin

section \<open>Client asset report generator: the pipeline of asset.py\<close>

text \<open>
  The development follows \<^verbatim>\<open>src/asset.py\<close>: the value normaliser \<^verbatim>\<open>clean_number\<close>,
  the currency formatter \<^verbatim>\<open>format_indian_currency\<close>, the filter in front of the pie
  chart in \<^verbatim>\<open>build_client_pdf_bytes\<close>, and the module-level code that loads the
  sheet, computes one client's allocation table and offers the single report and the
  ZIP of reports.
\<close>

subsection \<open>Python strings\<close>

text \<open>
  A Python \<^verbatim>\<open>str\<close> is a sequence of Unicode code points, and the source handles the
  rupee sign U+20B9, so a string is a list of code points. \<open>ascii\<close> writes an ASCII
  literal.
\<close>

type_synonym pystr = "nat list"

definition ascii :: "string \<Rightarrow> pystr" where
  "ascii s = map of_char s"

definition rupee :: nat where
  "rupee = 8377"

definition comma :: nat where
  "comma = 44"

text \<open>\<^verbatim>\<open>s.replace(c, "")\<close> for a one-character \<open>c\<close>: every occurrence goes.\<close>

definition remove_char :: "nat \<Rightarrow> pystr \<Rightarrow> pystr" where
  "remove_char c s = filter (\<lambda>x. x \<noteq> c) s"

text \<open>
  The characters \<^verbatim>\<open>str.strip()\<close> removes are those of \<^verbatim>\<open>str.isspace\<close>: the ASCII
  controls 9-13 and 28-31, the space, and the Unicode spaces U+0085, U+00A0, U+1680,
  U+2000-U+200A, U+2028, U+2029, U+202F, U+205F, U+3000.
\<close>

definition is_space :: "nat \<Rightarrow> bool" where
  "is_space c =
     ((9 \<le> c \<and> c \<le> 13) \<or> (28 \<le> c \<and> c \<le> 32) \<or> c = 133 \<or> c = 160 \<or> c = 5760 \<or>
      (8192 \<le> c \<and> c \<le> 8202) \<or> c = 8232 \<or> c = 8233 \<or> c = 8239 \<or> c = 8287 \<or>
      c = 12288)"

definition strip_with :: "(nat \<Rightarrow> bool) \<Rightarrow> pystr \<Rightarrow> pystr" where
  "strip_with sp s = rev (dropWhile sp (rev (dropWhile sp s)))"

definition strip :: "pystr \<Rightarrow> pystr" where
  "strip s = strip_with is_space s"

text \<open>
  \<^verbatim>\<open>str.lower()\<close>, on the ASCII letters. Code points outside ASCII are left as they
  are; the source compares the result with \<^verbatim>\<open>"total"\<close> only, and no code point
  outside ASCII lower-cases to one of its letters.
\<close>

definition lower_char :: "nat \<Rightarrow> nat" where
  "lower_char c = (if 65 \<le> c \<and> c \<le> 90 then c + 32 else c)"

definition lower :: "pystr \<Rightarrow> pystr" where
  "lower s = map lower_char s"

subsection \<open>Python floats\<close>

text \<open>
  A float is its exact value, or one of the three special values that \<^verbatim>\<open>float()\<close>
  reads from text and arithmetic passes on. Every operation that makes a float (reading
  text, converting an \<^verbatim>\<open>int\<close>, \<open>+\<close>, \<open>/\<close>, \<open>*\<close>) gives the binary64 value nearest to
  the exact result, ties to even, and infinity when that is out of range, as IEEE 754
  prescribes and Python and numpy do. The sign of zero is not modelled.
\<close>

datatype pyfloat = Fin rat | PInf | NInf | NaN

text \<open>Round half to even, as \<^verbatim>\<open>round()\<close> and numpy's \<^verbatim>\<open>rint\<close> do.\<close>

definition rint :: "rat \<Rightarrow> int" where
  "rint x =
     (let f = \<lfloor>x\<rfloor>; d = x - of_int f
      in if d < 1 / 2 then f else if 1 / 2 < d then f + 1 else if even f then f else f + 1)"

text \<open>\<open>ilog2 a\<close> is the integer part of the binary logarithm of a positive rational.\<close>

definition ilog2 :: "rat \<Rightarrow> int" where
  "ilog2 a =
     (let (p, q) = quotient_of a; k = bitlen p - bitlen q
      in if 2 powi k \<le> a then k else k - 1)"

text \<open>
  The nearest binary64 value: a significand of 53 bits (fewer below \<open>2 powi (-1022)\<close>),
  ties to even, and infinity from \<open>2 ^ 1024\<close> on.
\<close>

definition b64_round :: "rat \<Rightarrow> pyfloat" where
  "b64_round r =
     (if r = 0 then Fin 0
      else let a = \<bar>r\<bar>;
               e = max (ilog2 a - 52) (- 1074);
               v = of_int (rint (a / 2 powi e)) * 2 powi e
           in if 2 ^ 1024 \<le> v then (if 0 < r then PInf else NInf)
              else Fin (if 0 < r then v else - v))"

definition fadd :: "pyfloat \<Rightarrow> pyfloat \<Rightarrow> pyfloat" where
  "fadd x y =
     (case (x, y) of
        (NaN, _) \<Rightarrow> NaN
      | (_, NaN) \<Rightarrow> NaN
      | (PInf, NInf) \<Rightarrow> NaN
      | (NInf, PInf) \<Rightarrow> NaN
      | (PInf, _) \<Rightarrow> PInf
      | (_, PInf) \<Rightarrow> PInf
      | (NInf, _) \<Rightarrow> NInf
      | (_, NInf) \<Rightarrow> NInf
      | (Fin a, Fin b) \<Rightarrow> b64_round (a + b))"

text \<open>\<open>x > 0\<close> and \<open>x == 0\<close> on floats: both are false of nan.\<close>

definition fpos :: "pyfloat \<Rightarrow> bool" where
  "fpos x = (case x of Fin a \<Rightarrow> 0 < a | PInf \<Rightarrow> True | NInf \<Rightarrow> False | NaN \<Rightarrow> False)"

definition fzero :: "pyfloat \<Rightarrow> bool" where
  "fzero x = (case x of Fin a \<Rightarrow> a = 0 | _ \<Rightarrow> False)"

text \<open>
  numpy's division. A finite divisor is never zero where the source divides (the total
  is tested positive first); the quotient by zero is written as numpy gives it for a
  positive zero.
\<close>

definition fdiv :: "pyfloat \<Rightarrow> pyfloat \<Rightarrow> pyfloat" where
  "fdiv x y =
     (case (x, y) of
        (NaN, _) \<Rightarrow> NaN
      | (_, NaN) \<Rightarrow> NaN
      | (Fin a, Fin b) \<Rightarrow>
          (if b = 0 then (if a = 0 then NaN else if 0 < a then PInf else NInf)
           else b64_round (a / b))
      | (Fin a, _) \<Rightarrow> Fin 0
      | (PInf, Fin b) \<Rightarrow> (if 0 \<le> b then PInf else NInf)
      | (NInf, Fin b) \<Rightarrow> (if 0 \<le> b then NInf else PInf)
      | (_, _) \<Rightarrow> NaN)"

text \<open>The product with the positive constant 100.0.\<close>

definition fmul100 :: "pyfloat \<Rightarrow> pyfloat" where
  "fmul100 x = (case x of Fin a \<Rightarrow> b64_round (a * 100) | y \<Rightarrow> y)"

text \<open>
  \<^verbatim>\<open>Series.round(2)\<close> is numpy's \<^verbatim>\<open>round\<close>: the product with 100.0, then \<^verbatim>\<open>rint\<close>
  (which gives an integer, hence a float, exactly), then the quotient by 100.0.
\<close>

definition round2 :: "pyfloat \<Rightarrow> pyfloat" where
  "round2 x = (case fmul100 x of Fin z \<Rightarrow> b64_round (of_int (rint z) / 100) | y \<Rightarrow> y)"

subsection \<open>Reading a float from text\<close>

text \<open>
  \<^verbatim>\<open>float(s)\<close> on a string, after CPython. A string that is not all ASCII is first
  rewritten: a character below 127 stays, a Unicode space becomes a space, a Unicode
  decimal digit becomes its ASCII digit, and at the first other character a question
  mark ends the string. Then surrounding ASCII whitespace is dropped; underscores may
  stand between two digits; the rest is an optional sign and either a decimal numeral
  with an optional exponent or, in any case of letters, \<^verbatim>\<open>inf\<close>, \<^verbatim>\<open>infinity\<close> or
  \<^verbatim>\<open>nan\<close>. \<open>None\<close> is the \<^verbatim>\<open>ValueError\<close>.

  Which characters are decimal digits, and of which value, is the table of the Unicode
  database the interpreter was built with. It is the parameter \<open>U\<close>: \<open>U c = Some d\<close>
  when \<open>c\<close> is a decimal digit of value \<open>d\<close>. It is asked about characters from 127 on
  only.
\<close>

type_synonym decimals = "nat \<Rightarrow> nat option"

fun transform :: "decimals \<Rightarrow> pystr \<Rightarrow> pystr" where
  "transform U [] = []"
| "transform U (ch # rest) =
     (if ch < 127 then ch # transform U rest
      else if is_space ch then 32 # transform U rest
      else (case U ch of
              None \<Rightarrow> [63]
            | Some d \<Rightarrow> if d < 10 then (48 + d) # transform U rest else [63]))"

definition to_ascii :: "decimals \<Rightarrow> pystr \<Rightarrow> pystr" where
  "to_ascii U x = (if list_all (\<lambda>c. c < 128) x then x else transform U x)"

definition is_digit :: "nat \<Rightarrow> bool" where
  "is_digit c = (48 \<le> c \<and> c \<le> 57)"

definition digits_val :: "pystr \<Rightarrow> int" where
  "digits_val ds = foldl (\<lambda>a c. 10 * a + (int c - 48)) 0 ds"

text \<open>The whitespace \<^verbatim>\<open>float()\<close> strips from the rewritten string: 9-13 and 32.\<close>

definition float_space :: "nat \<Rightarrow> bool" where
  "float_space c = ((9 \<le> c \<and> c \<le> 13) \<or> c = 32)"

text \<open>The pass over the underscores; \<open>prev\<close> is the character before, 0 at the start.\<close>

fun underscores :: "nat \<Rightarrow> pystr \<Rightarrow> pystr option" where
  "underscores prev [] = (if prev = 95 then None else Some [])"
| "underscores prev (c # cs) =
     (if c = 95 then (if is_digit prev then underscores c cs else None)
      else if prev = 95 \<and> \<not> is_digit c then None
      else map_option ((#) c) (underscores c cs))"

definition split_sign :: "pystr \<Rightarrow> bool \<times> pystr" where
  "split_sign s =
     (case s of
        [] \<Rightarrow> (False, [])
      | c # cs \<Rightarrow> if c = 45 then (True, cs) else if c = 43 then (False, cs) else (False, s))"

definition parse_inf_or_nan :: "pystr \<Rightarrow> pyfloat option" where
  "parse_inf_or_nan s =
     (let (neg, t) = split_sign s; l = lower t
      in if l = ascii ''inf'' \<or> l = ascii ''infinity'' then Some (if neg then NInf else PInf)
         else if l = ascii ''nan'' then Some NaN
         else None)"

text \<open>What follows the mantissa: nothing, or \<^verbatim>\<open>e\<close>/\<^verbatim>\<open>E\<close>, an optional sign and digits.\<close>

definition parse_exponent :: "pystr \<Rightarrow> int option" where
  "parse_exponent s =
     (case s of
        [] \<Rightarrow> Some 0
      | c # cs \<Rightarrow>
          if c = 101 \<or> c = 69 then
            (let (neg, ds) = split_sign cs
             in if ds \<noteq> [] \<and> list_all is_digit ds
                then Some (if neg then - digits_val ds else digits_val ds)
                else None)
          else None)"

definition parse_decimal :: "pystr \<Rightarrow> rat option" where
  "parse_decimal s =
     (let (neg, t) = split_sign s;
          ip = takeWhile is_digit t;
          r1 = dropWhile is_digit t;
          (fp, r2) = (case r1 of
                        [] \<Rightarrow> ([], [])
                      | c # cs \<Rightarrow> if c = 46 then (takeWhile is_digit cs, dropWhile is_digit cs)
                                  else ([], r1))
      in if ip = [] \<and> fp = [] then None
         else case parse_exponent r2 of
                None \<Rightarrow> None
              | Some e \<Rightarrow>
                  let m = of_int (digits_val (ip @ fp)) * 10 powi (e - int (length fp))
                  in Some (if neg then - m else m))"

definition py_float :: "decimals \<Rightarrow> pystr \<Rightarrow> pyfloat option" where
  "py_float U x =
     (case underscores 0 (strip_with float_space (to_ascii U x)) of
        None \<Rightarrow> None
      | Some s \<Rightarrow>
          (case parse_decimal s of
             Some r \<Rightarrow> Some (b64_round r)
           | None \<Rightarrow> parse_inf_or_nan s))"

subsection \<open>The value normaliser\<close>

text \<open>
  \<^verbatim>\<open>clean_number(x)\<close>, lines 33-38. Every cell is a string when it is called (the sheet
  is read with \<^verbatim>\<open>dtype=str\<close>), so \<^verbatim>\<open>str(x)\<close> is \<open>x\<close>. The \<^verbatim>\<open>except\<close> branch is the
  \<open>None\<close> of \<open>py_float\<close>. \<open>cleaned_text\<close> is the string of line 35.
\<close>

definition cleaned_text :: "pystr \<Rightarrow> pystr" where
  "cleaned_text x = strip (remove_char comma (remove_char rupee x))"

definition clean_number :: "decimals \<Rightarrow> pystr \<Rightarrow> pyfloat" where
  "clean_number U x =
     (let s = cleaned_text x
      in if s \<notin> set [ascii '''', ascii ''nan'', ascii ''None'']
         then (case py_float U s of Some f \<Rightarrow> f | None \<Rightarrow> Fin 0)
         else Fin 0)"

subsection \<open>The currency formatter\<close>

text \<open>
  Exceptions are values; each carries the message that \<^verbatim>\<open>str(e)\<close> gives.
  \<open>Failure\<close> stands for whatever an external library raises.
\<close>

datatype exn = ValueError pystr | OverflowError pystr | IndexError pystr | Failure pystr

fun exn_str :: "exn \<Rightarrow> pystr" where
  "exn_str (ValueError m) = m"
| "exn_str (OverflowError m) = m"
| "exn_str (IndexError m) = m"
| "exn_str (Failure m) = m"

text \<open>The amount handed to the formatter is a Python number: an \<^verbatim>\<open>int\<close> or a float.\<close>

datatype pynum = PyInt int | PyFloat pyfloat

text \<open>
  \<^verbatim>\<open>float(amount)\<close>: a float is itself; an \<^verbatim>\<open>int\<close> goes to the nearest binary64
  value, and raises when that is out of range.
\<close>

definition to_float :: "pynum \<Rightarrow> exn + pyfloat" where
  "to_float amount =
     (case amount of
        PyFloat f \<Rightarrow> Inr f
      | PyInt n \<Rightarrow>
          (case b64_round (of_int n) of
             Fin a \<Rightarrow> Inr (Fin a)
           | _ \<Rightarrow> Inl (OverflowError (ascii ''int too large to convert to float''))))"

text \<open>\<^verbatim>\<open>round(amount)\<close> of a float: the nearest integer, ties to even.\<close>

definition py_round :: "pyfloat \<Rightarrow> exn + int" where
  "py_round x =
     (case x of
        Fin a \<Rightarrow> Inr (rint a)
      | NaN \<Rightarrow> Inl (ValueError (ascii ''cannot convert float NaN to integer''))
      | _ \<Rightarrow> Inl (OverflowError (ascii ''cannot convert float infinity to integer'')))"

text \<open>\<^verbatim>\<open>str(n)\<close> of an \<^verbatim>\<open>int\<close>: the decimal digits, after a minus sign if negative.\<close>

function digits10 :: "int \<Rightarrow> pystr" where
  "digits10 n = (if n < 10 then [nat n + 48] else digits10 (n div 10) @ [nat (n mod 10) + 48])"
  by pat_completeness auto
termination
  by (relation "measure nat") auto

declare digits10.simps [simp del]

definition str_int :: "int \<Rightarrow> pystr" where
  "str_int n = (if n < 0 then 45 # digits10 (- n) else digits10 n)"

text \<open>\<^verbatim>\<open>sep.join(xs)\<close>.\<close>

fun join :: "pystr \<Rightarrow> pystr list \<Rightarrow> pystr" where
  "join sep [] = []"
| "join sep [x] = x"
| "join sep (x # y # ys) = x @ sep @ join sep (y # ys)"

text \<open>
  The \<^verbatim>\<open>while len(remaining) > 2\<close> loop of lines 58-60: the last two characters
  of \<open>remaining\<close> are appended to \<open>groups\<close> and cut off.
\<close>

function group_loop :: "pystr \<Rightarrow> pystr list \<Rightarrow> pystr \<times> pystr list" where
  "group_loop remaining groups =
     (if 2 < length remaining
      then group_loop (take (length remaining - 2) remaining)
             (groups @ [drop (length remaining - 2) remaining])
      else (remaining, groups))"
  by pat_completeness auto
termination
  by (relation "measure (\<lambda>(remaining, groups). length remaining)") auto

declare group_loop.simps [simp del]

definition format_indian_currency :: "pynum \<Rightarrow> exn + pystr" where
  "format_indian_currency amount0 =
     (case to_float amount0 of
        Inl e \<Rightarrow> Inl e
      | Inr amount \<Rightarrow>
          if fzero amount then Inr ([rupee] @ ascii '' 0'')
          else
            (case py_round amount of
               Inl e \<Rightarrow> Inl e
             | Inr n \<Rightarrow>
                 let amount_str = str_int n;
                     formatted =
                       (if length amount_str \<le> 3 then amount_str
                        else
                          let last_three = drop (length amount_str - 3) amount_str;
                              remaining = take (length amount_str - 3) amount_str;
                              (remaining', groups) = group_loop remaining [];
                              groups' = (if remaining' \<noteq> [] then groups @ [remaining']
                                         else groups)
                          in join [comma] (rev groups') @ [comma] @ last_three)
                 in Inr ([rupee] @ ascii '' '' @ formatted)))"

subsection \<open>Loading the sheet\<close>

text \<open>
  Lines 173-180. A cell of the sheet is a string, or missing (\<open>None\<close>, pandas' NaN).
  A row is its first cell, the client identifier, and the cells of the asset columns;
  \<open>header\<close> holds the labels of the asset columns, \<^verbatim>\<open>df.columns[1:]\<close>.
\<close>

type_synonym cell = "pystr option"

record sheet =
  header :: "pystr list"
  cells :: "(cell \<times> cell list) list"

record frame =
  columns :: "pystr list"
  rows :: "(pystr \<times> pyfloat list) list"

text \<open>\<^verbatim>\<open>.fillna("0")\<close>.\<close>

definition fillna :: "cell \<Rightarrow> pystr" where
  "fillna c = (case c of None \<Rightarrow> ascii ''0'' | Some s \<Rightarrow> s)"

text \<open>\<^verbatim>\<open>df.replace([...], "0")\<close>: a cell that is exactly one of the listed strings.\<close>

definition placeholders :: "pystr list" where
  "placeholders =
     [ascii ''NA'', ascii ''N.A'', ascii ''N/A'', ascii ''na'', ascii ''n.a'', ascii ''n/a'',
      ascii '''', ascii ''Pending'', ascii ''pending'']"

definition replace_placeholders :: "pystr \<Rightarrow> pystr" where
  "replace_placeholders s = (if s \<in> set placeholders then ascii ''0'' else s)"

definition prepare :: "cell \<Rightarrow> pystr" where
  "prepare c = replace_placeholders (fillna c)"

text \<open>Lines 173-177: every cell prepared, the asset cells normalised.\<close>

definition normalise_rows ::
  "decimals \<Rightarrow> (cell \<times> cell list) list \<Rightarrow> (pystr \<times> pyfloat list) list" where
  "normalise_rows U cs =
     map (\<lambda>(c, vs). (prepare c, map (\<lambda>v. clean_number U (prepare v)) vs)) cs"

text \<open>Line 179: the rows whose identifier strips to the empty string go.\<close>

definition drop_blank :: "(pystr \<times> pyfloat list) list \<Rightarrow> (pystr \<times> pyfloat list) list" where
  "drop_blank rs = filter (\<lambda>r. strip (fst r) \<noteq> []) rs"

definition load :: "decimals \<Rightarrow> sheet \<Rightarrow> frame" where
  "load U sh = \<lparr>columns = header sh, rows = drop_blank (normalise_rows U (cells sh))\<rparr>"

text \<open>Line 180.\<close>

definition client_list :: "frame \<Rightarrow> pystr list" where
  "client_list df = map fst (rows df)"

subsection \<open>The allocation calculator\<close>

text \<open>
  Lines 187-192, and again 210-215.

  \<^verbatim>\<open>Series.sum()\<close> puts 0.0 in the place of every nan and hands the array to
  numpy's \<^verbatim>\<open>add.reduce\<close>, which adds to 0.0 the pairwise sum of the array: fewer than
  8 elements are added from left to right; up to 128, eight accumulators take the
  elements in turn, are added two by two, and the elements past the last full group
  of eight follow one by one; longer arrays are cut near the middle, at a multiple of 8.
  The order matters, since every addition rounds.
\<close>

record alloc_row =
  asset_type :: pystr
  val :: pyfloat
  pct :: pyfloat

function acc8 :: "pyfloat list \<Rightarrow> pyfloat list \<Rightarrow> pyfloat list \<times> pyfloat list" where
  "acc8 r a =
     (if 8 \<le> length a then acc8 (map2 fadd r (take 8 a)) (drop 8 a) else (r, a))"
  by pat_completeness auto
termination
  by (relation "measure (\<lambda>(r, a). length a)") auto

declare acc8.simps [simp del]

definition add8 :: "pyfloat list \<Rightarrow> pyfloat" where
  "add8 r =
     (case r of
        [r0, r1, r2, r3, r4, r5, r6, r7] \<Rightarrow>
          fadd (fadd (fadd r0 r1) (fadd r2 r3)) (fadd (fadd r4 r5) (fadd r6 r7))
      | _ \<Rightarrow> NaN)"

function pairwise_sum :: "pyfloat list \<Rightarrow> pyfloat" where
  "pairwise_sum a =
     (if length a < 8 then foldl fadd (Fin 0) a
      else if length a \<le> 128 then
        (let (r, rest) = acc8 (take 8 a) (drop 8 a) in foldl fadd (add8 r) rest)
      else
        (let n2 = length a div 2 - (length a div 2) mod 8
         in fadd (pairwise_sum (take n2 a)) (pairwise_sum (drop n2 a))))"
  by pat_completeness auto
termination
  by (relation "measure length") auto

declare pairwise_sum.simps [simp del]

definition pd_sum :: "pyfloat list \<Rightarrow> pyfloat" where
  "pd_sum vs = fadd (Fin 0) (pairwise_sum (map (\<lambda>v. if v = NaN then Fin 0 else v) vs))"

definition allocation :: "(pystr \<times> pyfloat) list \<Rightarrow> alloc_row list" where
  "allocation assets =
     (let total_value = pd_sum (map snd assets);
          client_df =
            map (\<lambda>(a, v).
                   \<lparr>asset_type = a, val = v,
                    pct = (if fpos total_value then round2 (fmul100 (fdiv v total_value))
                           else Fin 0)\<rparr>)
              assets
      in client_df @ [\<lparr>asset_type = ascii ''Total'', val = total_value, pct = Fin 100\<rparr>])"

text \<open>
  \<^verbatim>\<open>df[df.iloc[:,0]==name].iloc[0]\<close>: the first row of that client; none is an
  \<^verbatim>\<open>IndexError\<close>. The labels and the values of a row pair up in column order.
\<close>

definition client_table :: "frame \<Rightarrow> pystr \<Rightarrow> exn + alloc_row list" where
  "client_table df name =
     (case find (\<lambda>r. fst r = name) (rows df) of
        None \<Rightarrow> Inl (IndexError (ascii ''single positional indexer is out-of-bounds''))
      | Some r \<Rightarrow> Inr (allocation (zip (columns df) (snd r))))"

subsection \<open>The report of one client\<close>

text \<open>
  The charting library, the number formatting of the f-strings, the fixed markup of
  the page and the HTML-to-PDF engine are outside the repository: they are the fields
  of \<open>externals\<close>. \<open>'d\<close> is the type of the report date.
\<close>

record 'd externals =
  pie_png :: "pyfloat list \<Rightarrow> pystr list \<Rightarrow> exn + pystr"
  fmt_2f :: "pyfloat \<Rightarrow> pystr"
  page_html :: "pystr \<Rightarrow> 'd \<Rightarrow> pystr \<Rightarrow> pystr \<Rightarrow> pystr"
  write_pdf :: "pystr \<Rightarrow> exn + pystr"

text \<open>Lines 153-157: the rows of the pie chart and its colours.\<close>

definition plot_rows :: "alloc_row list \<Rightarrow> alloc_row list" where
  "plot_rows client_df =
     filter (\<lambda>r. fpos (val r)) (filter (\<lambda>r. lower (asset_type r) \<noteq> ascii ''total'') client_df)"

definition palette :: "pystr list" where
  "palette =
     [ascii ''#d65a8d'', ascii ''#d4b483'', ascii ''#274472'', ascii ''#c0c0c0'',
      ascii ''#3d6ba0'', ascii ''#f5e6d3'', ascii ''#5f84ce'', ascii ''#a8dadc'',
      ascii ''#f2a7bb'']"

definition chart_colors :: "alloc_row list \<Rightarrow> pystr list" where
  "chart_colors client_df = take (max 1 (length (plot_rows client_df))) palette"

text \<open>Lines 69-82: the rows of the table; the first amount that cannot be formatted raises.\<close>

definition strong :: "pystr \<Rightarrow> pystr" where
  "strong s = ascii ''<strong>'' @ s @ ascii ''</strong>''"

definition row_html :: "'d externals \<Rightarrow> alloc_row \<Rightarrow> exn + pystr" where
  "row_html X row =
     (case format_indian_currency (PyFloat (val row)) of
        Inl e \<Rightarrow> Inl e
      | Inr money \<Rightarrow>
          let percent = fmt_2f X (pct row) @ ascii ''%'';
              formatted_value = (if asset_type row = ascii ''Total'' then strong money else money);
              allocation = (if asset_type row = ascii ''Total'' then strong percent else percent)
          in Inr (ascii ''<tr><td>'' @ asset_type row @ ascii ''</td>'' @
                  ascii ''<td style='text-align: right;'>'' @ formatted_value @ ascii ''</td>'' @
                  ascii ''<td style='text-align: right;'>'' @ allocation @ ascii ''</td></tr>''))"

fun rows_html :: "'d externals \<Rightarrow> alloc_row list \<Rightarrow> exn + pystr list" where
  "rows_html X [] = Inr []"
| "rows_html X (row # rest) =
     (case row_html X row of
        Inl e \<Rightarrow> Inl e
      | Inr h \<Rightarrow> (case rows_html X rest of Inl e \<Rightarrow> Inl e | Inr hs \<Rightarrow> Inr (h # hs)))"

definition build_unified_html ::
  "'d externals \<Rightarrow> pystr \<Rightarrow> alloc_row list \<Rightarrow> 'd \<Rightarrow> pystr \<Rightarrow> exn + pystr" where
  "build_unified_html X client_name client_df report_dt chart_b64 =
     (case rows_html X client_df of
        Inl e \<Rightarrow> Inl e
      | Inr hs \<Rightarrow> Inr (page_html X client_name report_dt chart_b64 (join [10] hs)))"

text \<open>Lines 151-165.\<close>

definition build_client_pdf_bytes ::
  "'d externals \<Rightarrow> pystr \<Rightarrow> alloc_row list \<Rightarrow> 'd \<Rightarrow> exn + pystr" where
  "build_client_pdf_bytes X client_name client_df report_dt =
     (case pie_png X (map val (plot_rows client_df)) (chart_colors client_df) of
        Inl e \<Rightarrow> Inl e
      | Inr chart_b64 \<Rightarrow>
          (case build_unified_html X client_name client_df report_dt chart_b64 of
             Inl e \<Rightarrow> Inl e
           | Inr html_str \<Rightarrow> write_pdf X html_str))"

subsection \<open>What the page shows\<close>

text \<open>
  The calls into the user interface, in order. A download button carries its label,
  its data, its file name and its MIME type; an archive is the list of its entries,
  name and content, in the order they were written.
\<close>

datatype payload = Pdf pystr | Archive "(pystr \<times> pystr) list"

datatype ui_event =
    Table "alloc_row list"
  | DownloadButton pystr payload pystr pystr
  | ErrorMsg pystr
  | WarningMsg pystr

definition report_name :: "pystr \<Rightarrow> pystr" where
  "report_name client = client @ ascii ''_Report.pdf''"

text \<open>Lines 196-200: the \<^verbatim>\<open>try\<close> around the single report.\<close>

definition report_block :: "'d externals \<Rightarrow> pystr \<Rightarrow> alloc_row list \<Rightarrow> 'd \<Rightarrow> ui_event list" where
  "report_block X selected_client client_df report_date =
     (case build_client_pdf_bytes X selected_client client_df report_date of
        Inr pdf_bytes \<Rightarrow>
          [DownloadButton ([128229] @ ascii '' Download Report (PDF)'') (Pdf pdf_bytes)
             (report_name selected_client) (ascii ''application/pdf'')]
      | Inl e \<Rightarrow> [ErrorMsg (ascii ''PDF generation failed: '' @ exn_str e)])"

text \<open>
  Lines 186-200. \<open>Inl\<close> is an exception that nothing catches; \<open>None\<close> is the
  selection of an empty client list.
\<close>

definition preview :: "'d externals \<Rightarrow> frame \<Rightarrow> pystr option \<Rightarrow> 'd \<Rightarrow> exn + ui_event list" where
  "preview X df selected report_date =
     (case selected of
        None \<Rightarrow> Inr []
      | Some selected_client \<Rightarrow>
          if selected_client = [] then Inr []
          else
            (case client_table df selected_client of
               Inl e \<Rightarrow> Inl e
             | Inr client_df \<Rightarrow>
                 Inr (Table client_df # report_block X selected_client client_df report_date)))"

text \<open>Lines 210-216: the body of the loop, up to the PDF of one client.\<close>

definition client_pdf :: "'d externals \<Rightarrow> frame \<Rightarrow> 'd \<Rightarrow> pystr \<Rightarrow> exn + pystr" where
  "client_pdf X df report_date cname =
     (case client_table df cname of
        Inl e \<Rightarrow> Inl e
      | Inr cdf \<Rightarrow> build_client_pdf_bytes X cname cdf report_date)"

text \<open>Lines 209-217: the loop that fills the archive; nothing catches what it raises.\<close>

fun zip_entries ::
  "'d externals \<Rightarrow> frame \<Rightarrow> pystr list \<Rightarrow> 'd \<Rightarrow> exn + (pystr \<times> pystr) list" where
  "zip_entries X df [] report_date = Inr []"
| "zip_entries X df (cname # rest) report_date =
     (case client_pdf X df report_date cname of
        Inl e \<Rightarrow> Inl e
      | Inr pdf \<Rightarrow>
          (case zip_entries X df rest report_date of
             Inl e \<Rightarrow> Inl e
           | Inr zf \<Rightarrow> Inr ((report_name cname, pdf) # zf)))"

text \<open>Lines 205-220, once the button is pressed.\<close>

definition generate_zip :: "'d externals \<Rightarrow> frame \<Rightarrow> pystr list \<Rightarrow> 'd \<Rightarrow> exn + ui_event list" where
  "generate_zip X df selected_clients report_date =
     (if selected_clients \<noteq> [] then
        (case zip_entries X df selected_clients report_date of
           Inl e \<Rightarrow> Inl e
         | Inr zf \<Rightarrow>
             Inr [DownloadButton ([128230] @ ascii '' Download ZIP'') (Archive zf)
                    (ascii ''Client_Reports.zip'') (ascii ''application/zip'')])
      else Inr [WarningMsg ([9888, 65039] @ ascii '' Select at least one client.'')])"

subsection \<open>The specification's words\<close>

text \<open>
  The grouping as the specification describes it: the last three characters of the
  integer string are one group, and what stands before them is cut into groups of two
  from the right. \<open>chunks2\<close> cuts from the left; \<open>chunks2_right\<close> turns it around.
\<close>

fun chunks2 :: "pystr \<Rightarrow> pystr list" where
  "chunks2 [] = []"
| "chunks2 [a] = [[a]]"
| "chunks2 (a # b # rest) = [a, b] # chunks2 rest"

definition chunks2_right :: "pystr \<Rightarrow> pystr list" where
  "chunks2_right s = rev (map rev (chunks2 (rev s)))"

definition spec_groups :: "pystr \<Rightarrow> pystr list" where
  "spec_groups s = chunks2_right (take (length s - 3) s) @ [drop (length s - 3) s]"

definition spec_format_currency :: "int \<Rightarrow> pystr" where
  "spec_format_currency n =
     [rupee] @ ascii '' '' @
     (if n = 0 then ascii ''0'' else join [comma] (spec_groups (str_int n)))"

text \<open>What the formatter printed, with the symbol, the space and the commas taken out.\<close>

definition digits_of_output :: "exn + pystr \<Rightarrow> pystr option" where
  "digits_of_output out =
     (case out of
        Inl e \<Rightarrow> None
      | Inr s \<Rightarrow> if take 2 s = [rupee] @ ascii '' '' then Some (remove_char comma (drop 2 s))
                 else None)"

text \<open>The rationals that are binary64 values: rounding leaves them as they are.\<close>

definition is_b64 :: "rat \<Rightarrow> bool" where
  "is_b64 r = (b64_round r = Fin r)"

text \<open>
  The ranges the data model gives an allocation row. \<open>fin_nonneg\<close> is a finite value
  that is not negative; \<open>fnonneg\<close> is \<^verbatim>\<open>x >= 0\<close> on floats, which infinity satisfies.
\<close>

definition ffinite :: "pyfloat \<Rightarrow> bool" where
  "ffinite x = (case x of Fin a \<Rightarrow> True | _ \<Rightarrow> False)"

definition fin_nonneg :: "pyfloat \<Rightarrow> bool" where
  "fin_nonneg x = (case x of Fin a \<Rightarrow> 0 \<le> a | _ \<Rightarrow> False)"

definition fnonneg :: "pyfloat \<Rightarrow> bool" where
  "fnonneg x = (case x of Fin a \<Rightarrow> 0 \<le> a | PInf \<Rightarrow> True | _ \<Rightarrow> False)"

definition in_percent_range :: "pyfloat \<Rightarrow> bool" where
  "in_percent_range x = (case x of Fin a \<Rightarrow> 0 \<le> a \<and> a \<le> 100 | _ \<Rightarrow> False)"

definition row_in_range :: "alloc_row \<Rightarrow> bool" where
  "row_in_range r = (fnonneg (val r) \<and> in_percent_range (pct r))"

text \<open>
  The tolerance of the specification: the percentages are finite and their sum, taken
  exactly, is within one hundredth for each row of 100.
\<close>

fun fvalue :: "pyfloat \<Rightarrow> rat" where
  "fvalue (Fin a) = a"
| "fvalue x = 0"

definition within_tolerance :: "pyfloat list \<Rightarrow> bool" where
  "within_tolerance ps =
     (list_all ffinite ps \<and>
      \<bar>sum_list (map fvalue ps) - 100\<bar> \<le> of_nat (length ps) / 100)"

text \<open>The download buttons among the events: file name and data.\<close>

fun downloads :: "ui_event list \<Rightarrow> (pystr \<times> payload) list" where
  "downloads [] = []"
| "downloads (DownloadButton label body file_name mime # es) = (file_name, body) # downloads es"
| "downloads (e # es) = downloads es"

subsection \<open>Example data\<close>

text \<open>
  Two tables of decimal digits: one that knows no digit beyond ASCII, and one that
  knows the Arabic-Indic digits U+0660 to U+0669.
\<close>

definition no_decimals :: decimals where
  "no_decimals = (\<lambda>c. None)"


text \<open>
  Externals that never fail, and externals whose PDF engine cannot find the background
  image.
\<close>

definition X_ok :: "unit externals" where
  "X_ok =
     \<lparr>pie_png = (\<lambda>vs cs. Inr (ascii ''png'')),
      fmt_2f = (\<lambda>x. ascii ''0.00''),
      page_html = (\<lambda>c d chart table. table),
      write_pdf = (\<lambda>h. Inr h)\<rparr>"

definition X_no_background :: "unit externals" where
  "X_no_background =
     \<lparr>pie_png = (\<lambda>vs cs. Inr (ascii ''png'')),
      fmt_2f = (\<lambda>x. ascii ''0.00''),
      page_html = (\<lambda>c d chart table. table),
      write_pdf = (\<lambda>h. Inl (Failure (ascii ''cover_page_bg.jpg'')))\<rparr>"

text \<open>
  The sheet of the specification's scenario, with a second client whose equity is
  entered as \<^verbatim>\<open>inf\<close>.
\<close>

definition acme_sheet :: sheet where
  "acme_sheet =
     \<lparr>header = [ascii ''Equity'', ascii ''Debt''],
      cells =
        [(Some (ascii ''Acme''), [Some ([rupee] @ ascii ''50,000''), Some ([rupee] @ ascii ''50,000'')]),
         (Some (ascii ''Midas''), [Some (ascii ''inf''), Some (ascii ''10'')])]\<rparr>"

text \<open>The allocation table of the scenario's client.\<close>

definition acme_table :: "alloc_row list" where
  "acme_table = allocation [(ascii ''Equity'', Fin 50000), (ascii ''Debt'', Fin 50000)]"

text \<open>
  A sheet for the archive: two clients with finite holdings, and a third whose equity
  is entered as \<^verbatim>\<open>NAN\<close>, a text that the sheet reader keeps and \<^verbatim>\<open>float()\<close> reads as
  nan.
\<close>

definition batch_sheet :: sheet where
  "batch_sheet =
     \<lparr>header = [ascii ''Equity'', ascii ''Debt''],
      cells =
        [(Some (ascii ''Acme''), [Some ([rupee] @ ascii ''50,000''), Some ([rupee] @ ascii ''50,000'')]),
         (Some (ascii ''Zen''), [Some (ascii ''25000''), Some (ascii ''75000'')]),
         (Some (ascii ''Borg''), [Some (ascii ''NAN''), Some (ascii ''10'')])]\<rparr>"

text \<open>
  A sheet with a row whose identifier cell is missing, one whose identifier is the
  empty string, and one whose identifier is two spaces.
\<close>

definition blank_id_sheet :: sheet where
  "blank_id_sheet =
     \<lparr>header = [ascii ''Equity''],
      cells =
        [(Some (ascii ''Acme''), [Some (ascii ''10'')]),
         (None, [Some (ascii ''20'')]),
         (Some [], [Some (ascii ''30'')]),
         (Some (ascii ''  ''), [Some (ascii ''40'')])]\<rparr>"

section \<open>Properties\<close>

subsection \<open>Strings\<close>

lemma strip_with_empty_iff: "strip_with sp s = [] \<longleftrightarrow> list_all sp s"
proof
  assume "list_all sp s"
  then have "dropWhile sp s = []"
    by (simp add: dropWhile_eq_Nil_conv list_all_iff)
  then show "strip_with sp s = []"
    unfolding strip_with_def by (simp only: rev.simps dropWhile.simps)
next
  assume "strip_with sp s = []"
  then have all: "\<forall>x \<in> set (dropWhile sp s). sp x"
    by (simp add: strip_with_def dropWhile_eq_Nil_conv)
  have "dropWhile sp s = []"
  proof (cases "dropWhile sp s")
    case Nil
    then show ?thesis .
  next
    case (Cons y ys)
    then have "\<not> sp y" using hd_dropWhile [of sp s] by auto
    with Cons all show ?thesis by auto
  qed
  then show "list_all sp s"
    by (simp add: dropWhile_eq_Nil_conv list_all_iff)
qed

lemma strip_empty_iff: "strip s = [] \<longleftrightarrow> list_all is_space s"
  by (simp add: strip_def strip_with_empty_iff)

subsection \<open>Rounding\<close>

lemma floor_rat_numeral: "\<lfloor>numeral a / numeral b :: rat\<rfloor> = numeral a div numeral b"
  using floor_divide_of_int_eq [of "numeral a" "numeral b", where ?'a = rat] by simp

lemma rint_of_int: "rint (of_int n) = n"
  by (simp add: rint_def)

lemma rint_numeral: "rint (numeral n) = numeral n"
  using rint_of_int [of "numeral n"] by simp

lemma rint_close: "\<bar>of_int (rint x) - x\<bar> \<le> 1 / 2"
proof -
  have "of_int \<lfloor>x\<rfloor> \<le> x" "x < of_int \<lfloor>x\<rfloor> + 1"
    by linarith+
  then show ?thesis
    by (auto simp: rint_def Let_def)
qed

lemma rint_le: "x \<le> of_int n \<Longrightarrow> rint x \<le> n"
proof -
  assume a: "x \<le> of_int n"
  have b: "\<bar>of_int (rint x) - x\<bar> \<le> 1 / 2" by (rule rint_close)
  have "(of_int (rint x) :: rat) < of_int n + 1" using a b by linarith
  then have "(of_int (rint x) :: rat) < of_int (n + 1)" by simp
  then have "rint x < n + 1" by (simp only: of_int_less_iff)
  then show ?thesis by simp
qed

lemma rint_ge: "of_int n \<le> x \<Longrightarrow> n \<le> rint x"
proof -
  assume a: "of_int n \<le> x"
  have b: "\<bar>of_int (rint x) - x\<bar> \<le> 1 / 2" by (rule rint_close)
  have "(of_int n :: rat) - 1 < of_int (rint x)" using a b by linarith
  then have "(of_int (n - 1) :: rat) < of_int (rint x)" by simp
  then have "n - 1 < rint x" by (simp only: of_int_less_iff)
  then show ?thesis by simp
qed

lemma ilog2_bounds:
  assumes "0 < a"
  shows "2 powi (ilog2 a) \<le> a \<and> a < 2 powi (ilog2 a + 1)"
proof -
  obtain p q where pq: "quotient_of a = (p, q)" by (cases "quotient_of a")
  then have q: "0 < q" by (rule quotient_of_denom_pos)
  from pq have a: "a = of_int p / of_int q" by (rule quotient_of_div)
  with assms q have p: "0 < p" by (simp add: zero_less_divide_iff)
  define bp where "bp = bitlen p"
  define bq where "bq = bitlen q"
  from p have bp: "2 ^ nat (bp - 1) \<le> p" "p < 2 ^ nat bp"
    using bitlen_bounds [of p] by (simp_all add: bp_def)
  from q have bq: "2 ^ nat (bq - 1) \<le> q" "q < 2 ^ nat bq"
    using bitlen_bounds [of q] by (simp_all add: bq_def)
  have bp1: "1 \<le> bp" using p by (simp add: bp_def bitlen_def floorlog_def)
  have bq1: "1 \<le> bq" using q by (simp add: bq_def bitlen_def floorlog_def)
  have P1: "(2::rat) powi (bp - 1) \<le> of_int p"
  proof -
    have "(of_int (2 ^ nat (bp - 1)) :: rat) \<le> of_int p" using bp(1) by (simp only: of_int_le_iff)
    moreover have "(2::rat) powi (bp - 1) = 2 ^ nat (bp - 1)" using bp1 by (simp add: power_int_def)
    ultimately show ?thesis by simp
  qed
  have P2: "of_int p < (2::rat) powi bp"
  proof -
    have "(of_int p :: rat) < of_int (2 ^ nat bp)" using bp(2) by (simp only: of_int_less_iff)
    moreover have "(2::rat) powi bp = 2 ^ nat bp" using bp1 by (simp add: power_int_def)
    ultimately show ?thesis by simp
  qed
  have Q1: "(2::rat) powi (bq - 1) \<le> of_int q"
  proof -
    have "(of_int (2 ^ nat (bq - 1)) :: rat) \<le> of_int q" using bq(1) by (simp only: of_int_le_iff)
    moreover have "(2::rat) powi (bq - 1) = 2 ^ nat (bq - 1)" using bq1 by (simp add: power_int_def)
    ultimately show ?thesis by simp
  qed
  have Q2: "of_int q < (2::rat) powi bq"
  proof -
    have "(of_int q :: rat) < of_int (2 ^ nat bq)" using bq(2) by (simp only: of_int_less_iff)
    moreover have "(2::rat) powi bq = 2 ^ nat bq" using bq1 by (simp add: power_int_def)
    ultimately show ?thesis by simp
  qed
  have qpos: "(0::rat) < of_int q" using q by simp
  have up: "a < 2 powi (bp - bq + 1)"
  proof -
    have "(2::rat) powi (bp - bq + 1) * 2 powi (bq - 1) = 2 powi bp"
      by (simp add: power_int_add [symmetric])
    then have "of_int p < (2::rat) powi (bp - bq + 1) * 2 powi (bq - 1)" using P2 by simp
    also have "\<dots> \<le> 2 powi (bp - bq + 1) * of_int q"
      using Q1 by (simp add: mult_left_mono)
    finally show ?thesis using qpos by (simp add: a pos_divide_less_eq)
  qed
  have lo: "2 powi (bp - bq - 1) < a"
  proof -
    have "(2::rat) powi (bp - bq - 1) * 2 powi bq = 2 powi (bp - 1)"
      by (simp add: power_int_add [symmetric])
    have "(2::rat) powi (bp - bq - 1) * of_int q < 2 powi (bp - bq - 1) * 2 powi bq"
      using Q2 by (simp add: mult_strict_left_mono)
    also have "\<dots> = 2 powi (bp - 1)"
      by (simp add: power_int_add [symmetric])
    also have "\<dots> \<le> of_int p" by (rule P1)
    finally show ?thesis using qpos by (simp add: a pos_less_divide_eq)
  qed
  show ?thesis
  proof (cases "2 powi (bp - bq) \<le> a")
    case True
    then have "ilog2 a = bp - bq" by (simp add: ilog2_def pq bp_def bq_def)
    with True up show ?thesis by simp
  next
    case False
    then have "ilog2 a = bp - bq - 1" by (simp add: ilog2_def pq bp_def bq_def)
    with False lo show ?thesis by simp
  qed
qed

lemma ilog2_eqI:
  assumes "2 powi j \<le> a" "a < 2 powi (j + 1)"
  shows "ilog2 a = j"
proof -
  have "(0::rat) < 2 powi j" by simp
  with assms have pos: "0 < a" by linarith
  from ilog2_bounds [OF pos] have b: "2 powi (ilog2 a) \<le> a" "a < 2 powi (ilog2 a + 1)" by simp_all
  have "(2::rat) powi (ilog2 a) < 2 powi (j + 1)" using b(1) assms(2) by linarith
  then have "ilog2 a < j + 1"
    using power_int_increasing [of "j + 1" "ilog2 a" "2::rat"] by (cases "ilog2 a < j + 1") auto
  moreover have "(2::rat) powi j < 2 powi (ilog2 a + 1)" using b(2) assms(1) by linarith
  then have "j < ilog2 a + 1"
    using power_int_increasing [of "ilog2 a + 1" j "2::rat"] by (cases "j < ilog2 a + 1") auto
  ultimately show ?thesis by simp
qed

lemma b64_exact:
  assumes "r \<noteq> 0"
    and "\<bar>r\<bar> / 2 powi (max (ilog2 \<bar>r\<bar> - 52) (- 1074)) = of_int m"
    and "\<bar>r\<bar> < 2 ^ 1024"
  shows "b64_round r = Fin r"
proof -
  define e where "e = max (ilog2 \<bar>r\<bar> - 52) (- 1074)"
  have m: "\<bar>r\<bar> / 2 powi e = of_int m" using assms(2) by (simp add: e_def)
  have "(2::rat) powi e \<noteq> 0" by simp
  with m have v: "of_int m * 2 powi e = \<bar>r\<bar>"
    by (simp add: field_simps)
  have "b64_round r =
    (if (2::rat) ^ 1024 \<le> of_int (rint (\<bar>r\<bar> / 2 powi e)) * 2 powi e
     then (if 0 < r then PInf else NInf)
     else Fin (if 0 < r then of_int (rint (\<bar>r\<bar> / 2 powi e)) * 2 powi e
               else - (of_int (rint (\<bar>r\<bar> / 2 powi e)) * 2 powi e)))"
    unfolding b64_round_def Let_def e_def using assms(1) by (simp only: if_False)
  also have "\<dots> = (if (2::rat) ^ 1024 \<le> \<bar>r\<bar> then (if 0 < r then PInf else NInf)
     else Fin (if 0 < r then \<bar>r\<bar> else - \<bar>r\<bar>))"
    by (simp only: m rint_of_int v)
  also have "\<dots> = Fin (if 0 < r then \<bar>r\<bar> else - \<bar>r\<bar>)"
    using assms(3) by (simp only: if_False not_le [symmetric])
  also have "\<dots> = Fin r" by simp
  finally show ?thesis .
qed

lemma b64_round_int:
  assumes "\<bar>n\<bar> \<le> 2 ^ 53"
  shows "b64_round (of_int n) = Fin (of_int n)"
proof (cases "n = 0")
  case True
  then show ?thesis by (simp add: b64_round_def)
next
  case False
  define a :: rat where "a = \<bar>of_int n\<bar>"
  define e where "e = max (ilog2 a - 52) (- 1074)"
  have a: "a = of_int \<bar>n\<bar>" by (simp add: a_def)
  have a1: "1 \<le> a" using False unfolding a by (simp only: of_int_1_le_iff)
  have nz: "(of_int n :: rat) \<noteq> 0" using False by simp
  have big: "\<bar>of_int n :: rat\<bar> < 2 ^ 1024"
  proof -
    have "a \<le> of_int (2 ^ 53)" using assms unfolding a by (simp only: of_int_le_iff)
    then show ?thesis by (simp add: a_def)
  qed
  have "\<exists>m. a / 2 powi e = of_int m"
  proof (cases "\<bar>n\<bar> = 2 ^ 53")
    case True
    then have a53: "a = 2 ^ 53" by (simp add: a)
    have "ilog2 a = 53" by (rule ilog2_eqI) (simp_all add: a53)
    then have "a / 2 powi e = of_int (2 ^ 52)"
      by (simp add: a53 e_def)
    then show ?thesis ..
  next
    case False
    with assms have "\<bar>n\<bar> < 2 ^ 53" by simp
    then have "a < of_int (2 ^ 53)" unfolding a by (simp only: of_int_less_iff)
    then have lt: "a < 2 powi 53" by simp
    have "0 < a" using a1 by simp
    then have "2 powi (ilog2 a) \<le> a" using ilog2_bounds by blast
    with lt have "(2::rat) powi (ilog2 a) < 2 powi 53" by linarith
    then have i: "ilog2 a < 53"
      using power_int_increasing [of 53 "ilog2 a" "2::rat"] by (cases "ilog2 a < 53") auto
    have e: "e \<le> 0" using i by (simp add: e_def)
    have "(2::rat) powi e = inverse (2 ^ nat (- e))"
      using e by (simp add: power_int_def power_one_over inverse_eq_divide)
    then have "a / 2 powi e = of_int (\<bar>n\<bar> * 2 ^ nat (- e))"
      by (simp add: a divide_inverse)
    then show ?thesis ..
  qed
  then obtain m where "a / 2 powi e = of_int m" ..
  then have d: "\<bar>of_int n :: rat\<bar> / 2 powi (max (ilog2 \<bar>of_int n\<bar> - 52) (- 1074)) = of_int m"
    by (simp only: a_def e_def)
  show ?thesis
    by (rule b64_exact [OF nz d big])
qed

lemma b64_round_numeral: "numeral k \<le> (2::int) ^ 53 \<Longrightarrow> b64_round (numeral k) = Fin (numeral k)"
  using b64_round_int [of "numeral k"] by simp

lemma b64_round_neg_numeral:
  "numeral k \<le> (2::int) ^ 53 \<Longrightarrow> b64_round (- numeral k) = Fin (- numeral k)"
  using b64_round_int [of "- numeral k"] by simp

lemma b64_2p53_plus_1: "b64_round 9007199254740993 = Fin 9007199254740992"
proof -
  have i: "ilog2 9007199254740993 = 53" by (rule ilog2_eqI) simp_all
  have e: "max (ilog2 \<bar>9007199254740993\<bar> - 52) (- 1074) = 1" by (simp add: i)
  have r: "rint (9007199254740993 / 2) = 4503599627370496"
    by (simp add: rint_def Let_def floor_rat_numeral)
  show ?thesis
    unfolding b64_round_def Let_def e by (simp add: r)
qed


text \<open>
  A value \<open>m * 2 powi e\<close> with a significand of at most 53 bits and an exponent in range
  is a binary64 value.
\<close>

lemma b64_round_grid:
  assumes m: "\<bar>m\<bar> \<le> 2 ^ 53" and e: "- 1074 \<le> e"
    and big: "\<bar>of_int m * 2 powi e :: rat\<bar> < 2 ^ 1024"
  shows "b64_round (of_int m * 2 powi e) = Fin (of_int m * 2 powi e)"
proof (cases "m = 0")
  case True
  then show ?thesis by (simp add: b64_round_def)
next
  case False
  define r :: rat where "r = of_int m * 2 powi e"
  define a :: rat where "a = \<bar>r\<bar>"
  define e' where "e' = max (ilog2 a - 52) (- 1074)"
  have a: "a = of_int \<bar>m\<bar> * 2 powi e"
    by (simp add: a_def r_def abs_mult)
  have m1: "(1::rat) \<le> of_int \<bar>m\<bar>"
    using False by (simp only: of_int_1_le_iff)
  have pe: "(0::rat) < 2 powi e" by simp
  have apos: "0 < a" using m1 pe by (simp add: a)
  have nz: "r \<noteq> 0" using apos by (auto simp: a_def)
  have "\<exists>M. a / 2 powi e' = of_int M"
  proof (cases "\<bar>m\<bar> = 2 ^ 53")
    case True
    then have a53: "a = 2 powi (53 + e)"
      by (simp add: a power_int_add)
    have "ilog2 a = 53 + e"
      by (rule ilog2_eqI) (simp_all add: a53 power_int_add)
    then have "e' = 1 + e" using e by (simp add: e'_def)
    moreover have "(2::rat) powi (53 + e) = 2 powi 52 * 2 powi (1 + e)"
      using power_int_add [of "2::rat" 52 "1 + e"] by (simp add: add.commute add.left_commute)
    ultimately have "a / 2 powi e' = of_int (2 ^ 52)"
      by (simp add: a53)
    then show ?thesis ..
  next
    case False
    with m have "\<bar>m\<bar> < 2 ^ 53" by simp
    then have "(of_int \<bar>m\<bar> :: rat) < of_int (2 ^ 53)" by (simp only: of_int_less_iff)
    then have "(of_int \<bar>m\<bar> :: rat) < 2 powi 53" by simp
    then have "a < 2 powi 53 * 2 powi e"
      using pe by (simp add: a)
    then have lt: "a < 2 powi (53 + e)"
      by (simp add: power_int_add)
    have "2 powi (ilog2 a) \<le> a" using ilog2_bounds [OF apos] by blast
    with lt have "(2::rat) powi (ilog2 a) < 2 powi (53 + e)" by linarith
    then have i: "ilog2 a < 53 + e"
      using power_int_increasing [of "53 + e" "ilog2 a" "2::rat"]
      by (cases "ilog2 a < 53 + e") auto
    have le: "e' \<le> e" using i e by (simp add: e'_def)
    have "a / 2 powi e' = of_int \<bar>m\<bar> * 2 powi (e - e')"
      by (simp add: a power_int_diff)
    also have "(2::rat) powi (e - e') = 2 ^ nat (e - e')"
      using le by (simp add: power_int_def)
    finally have "a / 2 powi e' = of_int (\<bar>m\<bar> * 2 ^ nat (e - e'))"
      by simp
    then show ?thesis ..
  qed
  then obtain M where "a / 2 powi e' = of_int M" ..
  then have d: "\<bar>r\<bar> / 2 powi (max (ilog2 \<bar>r\<bar> - 52) (- 1074)) = of_int M"
    by (simp only: a_def e'_def)
  have "b64_round r = Fin r"
    using nz d big unfolding r_def by (rule b64_exact)
  then show ?thesis by (simp only: r_def)
qed

lemma b64_round_dyadic:
  assumes "\<bar>m\<bar> \<le> 2 ^ 53" "k \<le> 1074"
  shows "b64_round (of_int m / 2 ^ k) = Fin (of_int m / 2 ^ k)"
proof -
  have p: "(2::rat) powi (- int k) = 1 / 2 ^ k"
    by (simp add: power_int_def power_one_over inverse_eq_divide)
  have "\<bar>of_int m :: rat\<bar> \<le> of_int (2 ^ 53)"
    using assms(1) by (simp only: of_int_abs [symmetric] of_int_le_iff)
  moreover have "(1::rat) \<le> 2 ^ k" by simp
  ultimately have "\<bar>of_int m :: rat\<bar> / 2 ^ k \<le> of_int (2 ^ 53) / 1"
    by (intro frac_le) simp_all
  then have "\<bar>of_int m * 2 powi (- int k) :: rat\<bar> < 2 ^ 1024"
    by (simp add: p abs_mult abs_divide)
  then have "b64_round (of_int m * 2 powi (- int k)) = Fin (of_int m * 2 powi (- int k))"
    using assms by (intro b64_round_grid) simp_all
  then show ?thesis by (simp add: p)
qed

lemma b64_round_half: "b64_round (1 / 2) = Fin (1 / 2)"
  using b64_round_dyadic [of 1 1] by simp

lemma b64_round_quarter: "b64_round (1 / 4) = Fin (1 / 4)"
  using b64_round_dyadic [of 1 2] by simp

lemma b64_round_three_quarters: "b64_round (3 / 4) = Fin (3 / 4)"
  using b64_round_dyadic [of 3 2] by simp

subsection \<open>Evaluation\<close>

text \<open>The defining equations with which the simplifier runs the model on a given input.\<close>

lemmas str_defs =
  ascii_def rupee_def comma_def remove_char_def is_space_def strip_with_def strip_def
  lower_char_def lower_def is_digit_def float_space_def split_sign_def

lemmas parse_defs =
  to_ascii_def py_float_def parse_decimal_def parse_exponent_def digits_val_def
  parse_inf_or_nan_def cleaned_text_def clean_number_def

lemma b64_round_0: "b64_round 0 = Fin 0"
  by (simp add: b64_round_def)

lemma b64_round_1: "b64_round 1 = Fin 1"
  using b64_round_int [of 1] by simp

lemma pairwise_sum_short: "length a < 8 \<Longrightarrow> pairwise_sum a = foldl fadd (Fin 0) a"
  by (subst pairwise_sum.simps) simp

lemmas float_defs =
  fadd_def fpos_def fzero_def fdiv_def fmul100_def round2_def rint_def Let_def
  floor_rat_numeral pd_sum_def pairwise_sum_short b64_round_0 b64_round_1 b64_round_numeral
  b64_round_half b64_round_quarter b64_round_three_quarters

lemmas format_defs =
  to_float_def py_round_def str_int_def digits10.simps group_loop.simps
  format_indian_currency_def

lemmas sheet_defs =
  fillna_def placeholders_def replace_placeholders_def prepare_def normalise_rows_def
  drop_blank_def load_def client_list_def

lemma clean_number_50000: "clean_number U (rupee # ascii ''50,000'') = Fin 50000"
  by (simp add: str_defs parse_defs b64_round_numeral)

lemma clean_number_inf: "clean_number U (ascii ''inf'') = PInf"
  by (simp add: str_defs parse_defs)

lemma clean_number_10: "clean_number U (ascii ''10'') = Fin 10"
  by (simp add: str_defs parse_defs b64_round_numeral)

lemma load_acme_sheet:
  "load U acme_sheet =
     \<lparr>columns = [ascii ''Equity'', ascii ''Debt''],
      rows = [(ascii ''Acme'', [Fin 50000, Fin 50000]), (ascii ''Midas'', [PInf, Fin 10])]\<rparr>"
proof -
  have p: "prepare (Some (rupee # ascii ''50,000'')) = rupee # ascii ''50,000''"
    "prepare (Some (ascii ''inf'')) = ascii ''inf''"
    "prepare (Some (ascii ''10'')) = ascii ''10''"
    "prepare (Some (ascii ''Acme'')) = ascii ''Acme''"
    "prepare (Some (ascii ''Midas'')) = ascii ''Midas''"
    by (simp_all add: sheet_defs str_defs)
  have s: "strip (ascii ''Acme'') \<noteq> []" "strip (ascii ''Midas'') \<noteq> []"
    by (simp_all add: str_defs)
  show ?thesis
    by (simp add: load_def acme_sheet_def normalise_rows_def drop_blank_def p s
        clean_number_50000 clean_number_inf clean_number_10)
qed

lemma acme_table_rows:
  "acme_table =
     [\<lparr>asset_type = ascii ''Equity'', val = Fin 50000, pct = Fin 50\<rparr>,
      \<lparr>asset_type = ascii ''Debt'', val = Fin 50000, pct = Fin 50\<rparr>,
      \<lparr>asset_type = ascii ''Total'', val = Fin 100000, pct = Fin 100\<rparr>]"
  by (simp add: acme_table_def allocation_def float_defs rint_numeral)

lemma client_table_acme: "client_table (load U acme_sheet) (ascii ''Acme'') = Inr acme_table"
  by (simp add: client_table_def load_acme_sheet acme_table_def ascii_def)

lemma format_50000: "format_indian_currency (PyFloat (Fin 50000)) = Inr ([rupee] @ ascii '' 50,000'')"
  by (simp add: format_defs fzero_def rint_numeral ascii_def comma_def)

lemma format_100000:
  "format_indian_currency (PyFloat (Fin 100000)) = Inr ([rupee] @ ascii '' 1,00,000'')"
  by (simp add: format_defs fzero_def rint_numeral ascii_def comma_def)

lemma format_inf:
  "format_indian_currency (PyFloat PInf) =
     Inl (OverflowError (ascii ''cannot convert float infinity to integer''))"
  by (simp add: format_defs fzero_def)

lemma X_ok_fields:
  "pie_png X_ok = (\<lambda>vs cs. Inr (ascii ''png''))"
  "page_html X_ok = (\<lambda>c d chart table. table)"
  "write_pdf X_ok = (\<lambda>h. Inr h)"
  by (simp_all add: X_ok_def)

lemma X_no_background_fields:
  "pie_png X_no_background = (\<lambda>vs cs. Inr (ascii ''png''))"
  "page_html X_no_background = (\<lambda>c d chart table. table)"
  "write_pdf X_no_background = (\<lambda>h. Inl (Failure (ascii ''cover_page_bg.jpg'')))"
  by (simp_all add: X_no_background_def)

subsection \<open>The value normaliser\<close>












lemma clean_number_no_decimals: "clean_number no_decimals [1633, 1634, 1635] = Fin 0"
  by (simp add: str_defs parse_defs no_decimals_def)



subsection \<open>The currency formatter\<close>

lemma chunks2_Nil_iff: "chunks2 xs = [] \<longleftrightarrow> xs = []"
  by (induction xs rule: chunks2.induct) simp_all

lemma concat_chunks2: "concat (chunks2 xs) = xs"
  by (induction xs rule: chunks2.induct) simp_all

lemma concat_chunks2_right: "concat (chunks2_right s) = s"
proof -
  have "concat (chunks2_right s) = concat (map rev (rev (chunks2 (rev s))))"
    by (simp add: chunks2_right_def rev_map)
  also have "\<dots> = rev (concat (chunks2 (rev s)))"
    by (simp add: rev_concat)
  also have "\<dots> = s"
    by (simp add: concat_chunks2)
  finally show ?thesis .
qed

lemma length_two: "length xs = 2 \<Longrightarrow> \<exists>a b. xs = [a, b]"
  by (cases xs; cases "tl xs") auto

text \<open>
  What the loop leaves, with the rest of \<open>remaining\<close> appended as line 61-62 does, is
  the groups of two from the right, the rightmost group first.
\<close>

lemma group_loop_groups:
  "(case group_loop remaining groups of
      (remaining', groups') \<Rightarrow> if remaining' \<noteq> [] then groups' @ [remaining'] else groups')
   = groups @ map rev (chunks2 (rev remaining))"
proof (induction remaining groups rule: group_loop.induct)
  case (1 remaining groups)
  show ?case
  proof (cases "2 < length remaining")
    case True
    let ?n = "length remaining - 2"
    from True have "length (drop ?n remaining) = 2" by simp
    then obtain a b where ab: "drop ?n remaining = [a, b]"
      using length_two by blast
    define t where "t = take ?n remaining"
    have "remaining = t @ [a, b]"
      unfolding t_def ab [symmetric] by simp
    then have rr: "rev remaining = b # a # rev t"
      by simp
    have "map rev (chunks2 (rev remaining)) = [a, b] # map rev (chunks2 (rev t))"
      unfolding rr by simp
    then have "map rev (chunks2 (rev remaining)) =
        drop ?n remaining # map rev (chunks2 (rev (take ?n remaining)))"
      by (simp only: ab t_def)
    with "1.IH" [OF True] True show ?thesis
      by (subst group_loop.simps) simp
  next
    case False
    then consider "remaining = []" | a where "remaining = [a]" | a b where "remaining = [a, b]"
      by (cases remaining; cases "tl remaining"; cases "tl (tl remaining)") auto
    then show ?thesis
      by cases (simp_all add: group_loop.simps)
  qed
qed

lemma join_snoc: "xs \<noteq> [] \<Longrightarrow> join sep (xs @ [y]) = join sep xs @ sep @ y"
  by (induction sep xs rule: join.induct) simp_all

lemma remove_char_join:
  "remove_char c (join [c] xs) = remove_char c (concat xs)"
  by (induction "[c]" xs rule: join.induct) (simp_all add: remove_char_def)

lemma digits10_ge_48: "\<forall>c \<in> set (digits10 n). 48 \<le> c"
proof (induction n rule: digits10.induct)
  case (1 n)
  show ?case
  proof (cases "n < 10")
    case True
    then show ?thesis by (subst digits10.simps) simp
  next
    case False
    with "1.IH" show ?thesis by (subst digits10.simps) simp
  qed
qed

lemma str_int_no_comma: "remove_char comma (str_int n) = str_int n"
proof -
  have "\<forall>c \<in> set (str_int n). c \<noteq> comma"
    using digits10_ge_48 [of n] digits10_ge_48 [of "- n"]
    by (auto simp: str_int_def comma_def)
  then show ?thesis
    by (simp add: remove_char_def)
qed

lemma str_int_0: "str_int 0 = ascii ''0''"
  by (simp add: str_int_def digits10.simps ascii_def)

text \<open>The code against the specification's grouping, for every finite amount.\<close>

lemma format_finite:
  "format_indian_currency (PyFloat (Fin r)) = Inr (spec_format_currency (rint r))"
proof (cases "r = 0")
  case True
  then show ?thesis
    by (simp add: format_indian_currency_def to_float_def fzero_def spec_format_currency_def
        rint_def ascii_def)
next
  case False
  define s where "s = str_int (rint r)"
  have body: "format_indian_currency (PyFloat (Fin r)) =
    Inr ([rupee] @ ascii '' '' @
      (if length s \<le> 3 then s
       else join [comma] (chunks2_right (take (length s - 3) s)) @ [comma] @
            drop (length s - 3) s))"
  proof -
    have g: "rev (case group_loop t [] of
        (remaining', groups') \<Rightarrow> if remaining' \<noteq> [] then groups' @ [remaining'] else groups')
        = chunks2_right t" for t
      by (simp add: group_loop_groups chunks2_right_def)
    have "(let (remaining', groups) = group_loop t [];
               groups' = (if remaining' \<noteq> [] then groups @ [remaining'] else groups)
           in join [comma] (rev groups') @ [comma] @ u)
          = join [comma] (chunks2_right t) @ [comma] @ u" for t u
      using g [of t] by (simp add: Let_def case_prod_beta)
    then show ?thesis
      using False
      by (simp add: format_indian_currency_def to_float_def fzero_def py_round_def s_def
          Let_def)
  qed
  show ?thesis
  proof (cases "rint r = 0")
    case True
    then show ?thesis
      by (simp add: body s_def str_int_0 spec_format_currency_def ascii_def)
  next
    case nz: False
    show ?thesis
    proof (cases "length s \<le> 3")
      case True
      then have "spec_groups s = [s]"
        by (simp add: spec_groups_def chunks2_right_def)
      with True nz show ?thesis
        by (simp add: body spec_format_currency_def s_def)
    next
      case False
      then have "take (length s - 3) s \<noteq> []" by auto
      then have "chunks2_right (take (length s - 3) s) \<noteq> []"
        by (simp add: chunks2_right_def chunks2_Nil_iff)
      then have "join [comma] (spec_groups s) =
          join [comma] (chunks2_right (take (length s - 3) s)) @ [comma] @ drop (length s - 3) s"
        by (simp add: spec_groups_def join_snoc)
      with False nz show ?thesis
        by (simp add: body spec_format_currency_def s_def)
    qed
  qed
qed

lemma format_via_float:
  "to_float amount = Inr f \<Longrightarrow> format_indian_currency amount = format_indian_currency (PyFloat f)"
  by (simp add: format_indian_currency_def to_float_def)

lemma to_float_int: "\<bar>n\<bar> \<le> 2 ^ 53 \<Longrightarrow> to_float (PyInt n) = Inr (Fin (of_int n))"
  by (simp add: to_float_def b64_round_int)

lemma format_int:
  "\<bar>n\<bar> \<le> 2 ^ 53 \<Longrightarrow> format_indian_currency (PyInt n) = Inr (spec_format_currency n)"
  using format_via_float [OF to_float_int, of n] by (simp add: format_finite rint_of_int)

lemma digits_of_spec_format: "digits_of_output (Inr (spec_format_currency n)) = Some (str_int n)"
proof (cases "n = 0")
  case True
  then show ?thesis
    by (simp add: digits_of_output_def spec_format_currency_def str_int_0 ascii_def
        remove_char_def comma_def)
next
  case False
  have "concat (spec_groups (str_int n)) = str_int n"
    by (simp add: spec_groups_def concat_chunks2_right)
  then have "remove_char comma (join [comma] (spec_groups (str_int n))) = str_int n"
    by (simp add: remove_char_join str_int_no_comma)
  with False show ?thesis
    by (simp add: digits_of_output_def spec_format_currency_def ascii_def)
qed

lemmas spec_format_defs =
  spec_format_currency_def spec_groups_def chunks2_right_def str_int_def digits10.simps
  ascii_def comma_def

text \<open>
  Claim C5. A finite amount is rounded to the nearest integer (ties to even); the
  output is the symbol, a space, and \<^verbatim>\<open>0\<close> if the amount rounds to 0, otherwise the
  integer string with its last three characters as one group, the characters before
  them in groups of two from the right, and commas between the groups. (The sign of
  a negative amount is a character of the integer string and is grouped like a digit.)
  The four amounts of the specification give the four strings it lists.
\<close>

theorem format_indian_currency_groups:
  "format_indian_currency (PyFloat (Fin r)) = Inr (spec_format_currency (rint r))
   \<and> format_indian_currency (PyInt 0) = Inr ([rupee] @ ascii '' 0'')
   \<and> format_indian_currency (PyInt 999) = Inr ([rupee] @ ascii '' 999'')
   \<and> format_indian_currency (PyInt 100000) = Inr ([rupee] @ ascii '' 1,00,000'')
   \<and> format_indian_currency (PyInt 1234567) = Inr ([rupee] @ ascii '' 12,34,567'')"
proof -
  have "format_indian_currency (PyInt 0) = Inr ([rupee] @ ascii '' 0'')"
    by (simp add: format_int spec_format_defs)
  moreover have "format_indian_currency (PyInt 999) = Inr ([rupee] @ ascii '' 999'')"
    by (simp add: format_int spec_format_defs)
  moreover have "format_indian_currency (PyInt 100000) = Inr ([rupee] @ ascii '' 1,00,000'')"
    by (simp add: format_int spec_format_defs)
  moreover have "format_indian_currency (PyInt 1234567) = Inr ([rupee] @ ascii '' 12,34,567'')"
    by (simp add: format_int spec_format_defs)
  ultimately show ?thesis
    using format_finite by blast
qed

text \<open>
  Claim C9 fails as it is stated. The formatter begins with \<^verbatim>\<open>float(amount)\<close>, and
  the integer \<open>2 ^ 53 + 1\<close> is not a float: the nearest one is \<open>2 ^ 53\<close>, so the last
  digit printed is 2 where the integer has 3.
\<close>

theorem format_digits_counterexample:
  "format_indian_currency (PyInt 9007199254740993) =
     Inr ([rupee] @ ascii '' 9,00,71,99,25,47,40,992'')
   \<and> digits_of_output (format_indian_currency (PyInt 9007199254740993)) =
       Some (ascii ''9007199254740992'')
   \<and> str_int 9007199254740993 = ascii ''9007199254740993''"
proof -
  have "to_float (PyInt 9007199254740993) = Inr (Fin 9007199254740992)"
    by (simp add: to_float_def b64_2p53_plus_1)
  then have "format_indian_currency (PyInt 9007199254740993) =
      format_indian_currency (PyFloat (Fin 9007199254740992))"
    by (rule format_via_float)
  also have "\<dots> = Inr (spec_format_currency 9007199254740992)"
    using format_finite [of 9007199254740992] by (simp add: rint_numeral)
  finally have f: "format_indian_currency (PyInt 9007199254740993) =
      Inr (spec_format_currency 9007199254740992)" .
  have a: "spec_format_currency 9007199254740992 = [rupee] @ ascii '' 9,00,71,99,25,47,40,992''"
    by (simp add: spec_format_defs)
  have b: "str_int 9007199254740992 = ascii ''9007199254740992''"
    by (simp add: str_int_def digits10.simps ascii_def)
  have c: "str_int 9007199254740993 = ascii ''9007199254740993''"
    by (simp add: str_int_def digits10.simps ascii_def)
  from f have "digits_of_output (format_indian_currency (PyInt 9007199254740993)) =
      Some (str_int 9007199254740992)"
    by (simp only: digits_of_spec_format)
  with f a b c show ?thesis by simp
qed

text \<open>
  Claim C9, amended. For every positive integer \<open>n\<close>, when the amount is the float of
  value \<open>n\<close>, or the integer \<open>n\<close> itself and \<open>n\<close> is at most \<open>2 ^ 53\<close>, the output
  without the symbol, the space and the commas is the decimal string of \<open>n\<close>.
\<close>

theorem format_digits_preserved:
  assumes "0 < n"
    and "amount = PyFloat (Fin (of_int n)) \<or> (amount = PyInt n \<and> n \<le> 2 ^ 53)"
  shows "digits_of_output (format_indian_currency amount) = Some (str_int n)"
proof -
  have "format_indian_currency amount = Inr (spec_format_currency n)"
    using assms by (auto simp: format_finite rint_of_int format_int)
  then show ?thesis
    by (simp only: digits_of_spec_format)
qed

theorem format_digits_preserved_witness:
  "digits_of_output (format_indian_currency (PyInt 1234567)) = Some (str_int 1234567)
   \<and> str_int 1234567 = ascii ''1234567''
   \<and> digits_of_output (format_indian_currency (PyFloat (Fin 50000))) = Some (ascii ''50000'')"
proof -
  have a: "digits_of_output (format_indian_currency (PyInt 1234567)) = Some (str_int 1234567)"
    by (rule format_digits_preserved [of 1234567]) simp_all
  have "digits_of_output (format_indian_currency (PyFloat (Fin (of_int 50000)))) =
      Some (str_int 50000)"
    by (rule format_digits_preserved [of 50000]) simp_all
  then have b: "digits_of_output (format_indian_currency (PyFloat (Fin 50000))) =
      Some (ascii ''50000'')"
    by (simp add: str_int_def digits10.simps ascii_def)
  have c: "str_int 1234567 = ascii ''1234567''"
    by (simp add: str_int_def digits10.simps ascii_def)
  from a b c show ?thesis by blast
qed

subsection \<open>The client list\<close>

text \<open>
  Claim C10. Line 179 drops the rows whose identifier strips to the empty string, but
  it runs after lines 173-174, where \<^verbatim>\<open>fillna\<close> and \<^verbatim>\<open>replace\<close> have put \<^verbatim>\<open>"0"\<close>
  in the place of every missing and every empty cell, the identifier column included.
  So a row whose identifier is missing or empty is not dropped: it stays and is offered
  as the client \<^verbatim>\<open>0\<close>. Only an identifier made of whitespace is dropped. On the sheet
  with the identifiers \<^verbatim>\<open>Acme\<close>, missing, empty and two spaces, the client list is
  \<^verbatim>\<open>Acme\<close>, \<^verbatim>\<open>0\<close>, \<^verbatim>\<open>0\<close>.
\<close>

theorem blank_identifier_kept:
  "client_list (load U blank_id_sheet) = [ascii ''Acme'', ascii ''0'', ascii ''0'']
   \<and> prepare None = ascii ''0''
   \<and> prepare (Some []) = ascii ''0''
   \<and> prepare (Some (ascii ''  '')) = ascii ''  ''"
  by (simp add: blank_id_sheet_def sheet_defs str_defs)

subsection \<open>The chart filter\<close>

text \<open>
  Claim C6. The rows handed to the pie chart are exactly the rows whose value is
  greater than 0 and whose asset type is not, in any case of letters, \<^verbatim>\<open>Total\<close>,
  in their order; the colours are the palette of nine cut to the number of these rows,
  and never fewer than one.
\<close>

theorem chart_filter:
  "plot_rows client_df =
     filter (\<lambda>r. fpos (val r) \<and> lower (asset_type r) \<noteq> lower (ascii ''Total'')) client_df
   \<and> chart_colors client_df = take (max 1 (length (plot_rows client_df))) palette
   \<and> length palette = 9
   \<and> length (chart_colors client_df) = min 9 (max 1 (length (plot_rows client_df)))
   \<and> 1 \<le> length (chart_colors client_df)"
proof -
  have t: "lower (ascii ''Total'') = ascii ''total''"
    by (simp add: lower_def lower_char_def ascii_def)
  have p: "length palette = 9" by (simp add: palette_def)
  have "plot_rows client_df =
     filter (\<lambda>r. fpos (val r) \<and> lower (asset_type r) \<noteq> lower (ascii ''Total'')) client_df"
    unfolding plot_rows_def t filter_filter by (rule filter_cong) auto
  moreover have "length (chart_colors client_df) = min 9 (max 1 (length (plot_rows client_df)))"
    by (simp add: chart_colors_def p min.commute)
  ultimately show ?thesis by (simp add: p chart_colors_def)
qed

subsection \<open>The single report\<close>

lemma client_list_load:
  "client_list (load U sh) =
     filter (\<lambda>c. \<not> list_all is_space c) (map (\<lambda>r. prepare (fst r)) (cells sh))"
proof -
  have a: "map fst (normalise_rows U cs) = map (\<lambda>r. prepare (fst r)) cs" for cs
    by (simp add: normalise_rows_def case_prod_beta)
  have b: "map fst (drop_blank rs) = filter (\<lambda>c. \<not> list_all is_space c) (map fst rs)" for rs
    by (simp add: drop_blank_def filter_map comp_def strip_empty_iff)
  show ?thesis
    by (simp add: client_list_def load_def a b)
qed

lemma client_table_listed:
  assumes "c \<in> set (client_list df)"
  shows "\<exists>cdf. client_table df c = Inr cdf"
proof -
  from assms obtain r where "r \<in> set (rows df)" "fst r = c"
    by (auto simp: client_list_def)
  then have "\<exists>x. x \<in> set (rows df) \<and> fst x = c" by blast
  then have "find (\<lambda>r. fst r = c) (rows df) \<noteq> None"
    by (simp only: find_None_iff not_not)
  then show ?thesis
    by (auto simp: client_table_def)
qed

lemma report_block_Inl:
  "build_client_pdf_bytes X c cdf d = Inl e \<Longrightarrow>
   report_block X c cdf d = [ErrorMsg (ascii ''PDF generation failed: '' @ exn_str e)]"
  by (simp add: report_block_def)

lemma report_block_Inr:
  "build_client_pdf_bytes X c cdf d = Inr pdf \<Longrightarrow>
   report_block X c cdf d =
     [DownloadButton ([128229] @ ascii '' Download Report (PDF)'') (Pdf pdf)
        (c @ ascii ''_Report.pdf'') (ascii ''application/pdf'')]"
  by (simp add: report_block_def report_name_def)

lemma build_engine_fails:
  "pie_png X (map val (plot_rows cdf)) (chart_colors cdf) = Inr chart \<Longrightarrow>
   build_unified_html X c cdf d chart = Inr html \<Longrightarrow>
   write_pdf X html = Inl e \<Longrightarrow>
   build_client_pdf_bytes X c cdf d = Inl e"
  by (simp add: build_client_pdf_bytes_def)

lemma rows_html_acme:
  "\<exists>hs. rows_html X acme_table = Inr hs"
  by (simp add: acme_table_rows row_html_def format_50000 format_100000)

text \<open>
  Claim C7. When building the PDF raises, whatever raised (and in particular the
  PDF engine), the \<^verbatim>\<open>try\<close> of lines 196-200 turns the exception into one error
  message and offers no download; when it succeeds, the one download button carries
  the PDF under the name of the client followed by \<^verbatim>\<open>_Report.pdf\<close>. For every client
  of the list, the preview consists of the table and of this block: no exception
  leaves it.
\<close>

theorem single_report_outcome:
  "(build_client_pdf_bytes X c cdf d = Inl e \<longrightarrow>
      report_block X c cdf d = [ErrorMsg (ascii ''PDF generation failed: '' @ exn_str e)] \<and>
      downloads (report_block X c cdf d) = [])
   \<and> (pie_png X (map val (plot_rows cdf)) (chart_colors cdf) = Inr chart \<and>
       build_unified_html X c cdf d chart = Inr html \<and> write_pdf X html = Inl e \<longrightarrow>
      report_block X c cdf d = [ErrorMsg (ascii ''PDF generation failed: '' @ exn_str e)])
   \<and> (build_client_pdf_bytes X c cdf d = Inr pdf \<longrightarrow>
      report_block X c cdf d =
        [DownloadButton ([128229] @ ascii '' Download Report (PDF)'') (Pdf pdf)
           (c @ ascii ''_Report.pdf'') (ascii ''application/pdf'')] \<and>
      downloads (report_block X c cdf d) = [(c @ ascii ''_Report.pdf'', Pdf pdf)])
   \<and> (name \<in> set (client_list (load U sh)) \<longrightarrow>
      (\<exists>t. client_table (load U sh) name = Inr t \<and>
           preview X (load U sh) (Some name) d = Inr (Table t # report_block X name t d)))"
proof (intro conjI impI)
  assume "build_client_pdf_bytes X c cdf d = Inl e"
  then show "report_block X c cdf d = [ErrorMsg (ascii ''PDF generation failed: '' @ exn_str e)]"
    by (rule report_block_Inl)
  then show "downloads (report_block X c cdf d) = []" by simp
next
  assume "pie_png X (map val (plot_rows cdf)) (chart_colors cdf) = Inr chart \<and>
       build_unified_html X c cdf d chart = Inr html \<and> write_pdf X html = Inl e"
  then have "build_client_pdf_bytes X c cdf d = Inl e"
    by (simp add: build_engine_fails)
  then show "report_block X c cdf d = [ErrorMsg (ascii ''PDF generation failed: '' @ exn_str e)]"
    by (rule report_block_Inl)
next
  assume "build_client_pdf_bytes X c cdf d = Inr pdf"
  then show r: "report_block X c cdf d =
        [DownloadButton ([128229] @ ascii '' Download Report (PDF)'') (Pdf pdf)
           (c @ ascii ''_Report.pdf'') (ascii ''application/pdf'')]"
    by (rule report_block_Inr)
  show "downloads (report_block X c cdf d) = [(c @ ascii ''_Report.pdf'', Pdf pdf)]"
    unfolding r by simp
next
  assume n: "name \<in> set (client_list (load U sh))"
  then obtain t where t: "client_table (load U sh) name = Inr t"
    using client_table_listed by blast
  from n have "\<not> list_all is_space name"
    by (simp add: client_list_load)
  then have "name \<noteq> []" by auto
  with t have "preview X (load U sh) (Some name) d = Inr (Table t # report_block X name t d)"
    by (simp add: preview_def)
  with t show "\<exists>t. client_table (load U sh) name = Inr t \<and>
           preview X (load U sh) (Some name) d = Inr (Table t # report_block X name t d)"
    by blast
qed

theorem single_report_outcome_witness:
  "build_client_pdf_bytes X_no_background (ascii ''Acme'') acme_table () =
     Inl (Failure (ascii ''cover_page_bg.jpg''))
   \<and> report_block X_no_background (ascii ''Acme'') acme_table () =
       [ErrorMsg (ascii ''PDF generation failed: cover_page_bg.jpg'')]
   \<and> downloads (report_block X_no_background (ascii ''Acme'') acme_table ()) = []
   \<and> (case build_client_pdf_bytes X_ok (ascii ''Acme'') acme_table () of
         Inl e \<Rightarrow> False
       | Inr pdf \<Rightarrow>
           downloads (report_block X_ok (ascii ''Acme'') acme_table ()) =
             [(ascii ''Acme_Report.pdf'', Pdf pdf)])
   \<and> ascii ''Acme'' \<in> set (client_list (load no_decimals acme_sheet))
   \<and> (case preview X_ok (load no_decimals acme_sheet) (Some (ascii ''Acme'')) () of
         Inl e \<Rightarrow> False
       | Inr es \<Rightarrow> length (downloads es) = 1)"
proof -
  let ?c = "ascii ''Acme''"
  obtain hs where hs: "rows_html X_no_background acme_table = Inr hs"
    using rows_html_acme by blast
  obtain hs' where hs': "rows_html X_ok acme_table = Inr hs'"
    using rows_html_acme by blast
  have f: "build_client_pdf_bytes X_no_background ?c acme_table () =
     Inl (Failure (ascii ''cover_page_bg.jpg''))"
    by (simp add: build_client_pdf_bytes_def build_unified_html_def hs X_no_background_fields)
  have s: "build_client_pdf_bytes X_ok ?c acme_table () = Inr (join [10] hs')"
    by (simp add: build_client_pdf_bytes_def build_unified_html_def hs' X_ok_fields)
  have m: "?c \<in> set (client_list (load no_decimals acme_sheet))"
    by (simp add: client_list_def load_acme_sheet)
  have msg: "ascii ''PDF generation failed: '' @ exn_str (Failure (ascii ''cover_page_bg.jpg''))
     = ascii ''PDF generation failed: cover_page_bg.jpg''"
    by (simp add: ascii_def)
  have app: "?c @ ascii ''_Report.pdf'' = ascii ''Acme_Report.pdf''"
    by (simp add: ascii_def)
  note T1 = single_report_outcome [where X = X_no_background and c = ?c and cdf = acme_table
      and d = "()" and e = "Failure (ascii ''cover_page_bg.jpg'')" and U = no_decimals
      and sh = acme_sheet]
  note T2 = single_report_outcome [where X = X_ok and c = ?c and cdf = acme_table
      and d = "()" and pdf = "join [10] hs'" and name = ?c and U = no_decimals
      and sh = acme_sheet]
  from T1 f have a: "report_block X_no_background ?c acme_table () =
       [ErrorMsg (ascii ''PDF generation failed: cover_page_bg.jpg'')]"
    and b: "downloads (report_block X_no_background ?c acme_table ()) = []"
    unfolding msg by blast+
  from T2 s have c: "downloads (report_block X_ok ?c acme_table ()) =
             [(ascii ''Acme_Report.pdf'', Pdf (join [10] hs'))]"
    unfolding app by blast
  from T2 m obtain t where
    "preview X_ok (load no_decimals acme_sheet) (Some ?c) () = Inr (Table t # report_block X_ok ?c t ())"
    and t: "client_table (load no_decimals acme_sheet) ?c = Inr t"
    by blast
  then have p: "preview X_ok (load no_decimals acme_sheet) (Some ?c) () =
      Inr (Table acme_table # report_block X_ok ?c acme_table ())"
    by (simp add: client_table_acme)
  have d: "case preview X_ok (load no_decimals acme_sheet) (Some ?c) () of
         Inl e \<Rightarrow> False
       | Inr es \<Rightarrow> length (downloads es) = 1"
    unfolding p by (simp add: c)
  have s': "case build_client_pdf_bytes X_ok ?c acme_table () of
         Inl e \<Rightarrow> False
       | Inr pdf \<Rightarrow>
           downloads (report_block X_ok ?c acme_table ()) = [(ascii ''Acme_Report.pdf'', Pdf pdf)]"
    unfolding s by (simp add: c)
  from f a b s' m d show ?thesis by blast
qed

subsection \<open>The archive of reports\<close>

lemma zip_entries_all_ok:
  "map (client_pdf X df d) sel = map Inr pdfs \<Longrightarrow>
   zip_entries X df sel d = Inr (zip (map report_name sel) pdfs)"
proof (induction sel arbitrary: pdfs)
  case Nil
  then show ?case by simp
next
  case (Cons c sel)
  from Cons.prems obtain p ps where ps: "pdfs = p # ps"
    by (cases pdfs) auto
  with Cons.prems have c: "client_pdf X df d c = Inr p"
    and rest: "map (client_pdf X df d) sel = map Inr ps"
    by simp_all
  from Cons.IH [OF rest] c show ?case
    by (simp add: ps)
qed

text \<open>The frame of the sheet for the archive, and the tables of its three clients.\<close>

lemma clean_number_NAN: "clean_number U (ascii ''NAN'') = NaN"
  by (simp add: str_defs parse_defs)

lemma clean_number_25000: "clean_number U (ascii ''25000'') = Fin 25000"
  by (simp add: str_defs parse_defs b64_round_numeral)

lemma clean_number_75000: "clean_number U (ascii ''75000'') = Fin 75000"
  by (simp add: str_defs parse_defs b64_round_numeral)

lemma load_batch_sheet:
  "load U batch_sheet =
     \<lparr>columns = [ascii ''Equity'', ascii ''Debt''],
      rows = [(ascii ''Acme'', [Fin 50000, Fin 50000]), (ascii ''Zen'', [Fin 25000, Fin 75000]),
              (ascii ''Borg'', [NaN, Fin 10])]\<rparr>"
proof -
  have p: "prepare (Some (rupee # ascii ''50,000'')) = rupee # ascii ''50,000''"
    "prepare (Some (ascii ''25000'')) = ascii ''25000''"
    "prepare (Some (ascii ''75000'')) = ascii ''75000''"
    "prepare (Some (ascii ''NAN'')) = ascii ''NAN''"
    "prepare (Some (ascii ''10'')) = ascii ''10''"
    "prepare (Some (ascii ''Acme'')) = ascii ''Acme''"
    "prepare (Some (ascii ''Zen'')) = ascii ''Zen''"
    "prepare (Some (ascii ''Borg'')) = ascii ''Borg''"
    by (simp_all add: sheet_defs str_defs)
  have s: "strip (ascii ''Acme'') \<noteq> []" "strip (ascii ''Zen'') \<noteq> []"
    "strip (ascii ''Borg'') \<noteq> []"
    by (simp_all add: str_defs)
  show ?thesis
    by (simp add: load_def batch_sheet_def normalise_rows_def drop_blank_def p s
        clean_number_50000 clean_number_25000 clean_number_75000 clean_number_NAN
        clean_number_10)
qed

lemma client_table_batch_acme:
  "client_table (load U batch_sheet) (ascii ''Acme'') = Inr acme_table"
  by (simp add: client_table_def load_batch_sheet acme_table_def ascii_def)

lemma client_table_zen:
  "client_table (load U batch_sheet) (ascii ''Zen'') =
     Inr [\<lparr>asset_type = ascii ''Equity'', val = Fin 25000, pct = Fin 25\<rparr>,
          \<lparr>asset_type = ascii ''Debt'', val = Fin 75000, pct = Fin 75\<rparr>,
          \<lparr>asset_type = ascii ''Total'', val = Fin 100000, pct = Fin 100\<rparr>]"
  by (simp add: client_table_def load_batch_sheet allocation_def float_defs rint_numeral
      ascii_def)

lemma client_table_borg:
  "client_table (load U batch_sheet) (ascii ''Borg'') =
     Inr [\<lparr>asset_type = ascii ''Equity'', val = NaN, pct = NaN\<rparr>,
          \<lparr>asset_type = ascii ''Debt'', val = Fin 10, pct = Fin 100\<rparr>,
          \<lparr>asset_type = ascii ''Total'', val = Fin 10, pct = Fin 100\<rparr>]"
  by (simp add: client_table_def load_batch_sheet allocation_def float_defs rint_numeral
      ascii_def)

lemma format_25000: "format_indian_currency (PyFloat (Fin 25000)) = Inr ([rupee] @ ascii '' 25,000'')"
  by (simp add: format_defs fzero_def rint_numeral ascii_def comma_def)

lemma format_75000: "format_indian_currency (PyFloat (Fin 75000)) = Inr ([rupee] @ ascii '' 75,000'')"
  by (simp add: format_defs fzero_def rint_numeral ascii_def comma_def)

lemma format_nan:
  "format_indian_currency (PyFloat NaN) =
     Inl (ValueError (ascii ''cannot convert float NaN to integer''))"
  by (simp add: format_defs fzero_def)

lemma client_pdf_acme:
  "\<exists>pdf. client_pdf X_ok (load U batch_sheet) () (ascii ''Acme'') = Inr pdf"
proof -
  obtain hs where "rows_html X_ok acme_table = Inr hs"
    using rows_html_acme by blast
  then show ?thesis
    by (simp add: client_pdf_def client_table_batch_acme build_client_pdf_bytes_def
        build_unified_html_def X_ok_fields)
qed

lemma client_pdf_zen:
  "\<exists>pdf. client_pdf X_ok (load U batch_sheet) () (ascii ''Zen'') = Inr pdf"
  by (simp add: client_pdf_def client_table_zen build_client_pdf_bytes_def
      build_unified_html_def X_ok_fields row_html_def format_25000 format_75000 format_100000)

lemma client_pdf_borg:
  "client_pdf X_ok (load U batch_sheet) () (ascii ''Borg'') =
     Inl (ValueError (ascii ''cannot convert float NaN to integer''))"
  by (simp add: client_pdf_def client_table_borg build_client_pdf_bytes_def
      build_unified_html_def X_ok_fields row_html_def format_nan)

text \<open>
  Claim C8 fails as it is stated: a selection that is not empty need not give an
  archive. In the sheet for the archive the equity of the client Borg reads
  \<^verbatim>\<open>NAN\<close>, which \<^verbatim>\<open>float()\<close> reads as nan. The row is left out of the pie chart (nan
  is not greater than 0), and the currency formatter then raises on it, nan having no
  nearest integer. With Zen and Borg selected, the report of Zen is built, the report
  of Borg raises, and what the run gives is that exception: no download button.
\<close>

theorem batch_aborts_counterexample:
  "generate_zip X_ok (load no_decimals batch_sheet) [ascii ''Zen'', ascii ''Borg''] () =
     Inl (ValueError (ascii ''cannot convert float NaN to integer''))"
proof -
  obtain pdf where "client_pdf X_ok (load no_decimals batch_sheet) () (ascii ''Zen'') = Inr pdf"
    using client_pdf_zen by blast
  then show ?thesis
    by (simp add: generate_zip_def client_pdf_borg)
qed

text \<open>
  Claim C8, amended. An empty selection gives the warning and no archive. A selection
  that is not empty, when the PDF of every selected client can be built, gives one
  download named \<^verbatim>\<open>Client_Reports.zip\<close>, whose archive holds one entry for each
  selected client, in the order of the selection, named after the client with
  \<^verbatim>\<open>_Report.pdf\<close> and holding the PDF of that client.
\<close>

theorem batch_outcome:
  "generate_zip X df [] d = Inr [WarningMsg ([9888, 65039] @ ascii '' Select at least one client.'')]
   \<and> downloads [WarningMsg ([9888, 65039] @ ascii '' Select at least one client.'')] = []
   \<and> (sel \<noteq> [] \<and> map (client_pdf X df d) sel = map Inr pdfs \<longrightarrow>
        generate_zip X df sel d =
          Inr [DownloadButton ([128230] @ ascii '' Download ZIP'')
                 (Archive (zip (map (\<lambda>c. c @ ascii ''_Report.pdf'') sel) pdfs))
                 (ascii ''Client_Reports.zip'') (ascii ''application/zip'')]
        \<and> length pdfs = length sel)"
proof (intro conjI impI)
  show "generate_zip X df [] d =
      Inr [WarningMsg ([9888, 65039] @ ascii '' Select at least one client.'')]"
    by (simp add: generate_zip_def)
next
  show "downloads [WarningMsg ([9888, 65039] @ ascii '' Select at least one client.'')] = []"
    by simp
next
  assume a: "sel \<noteq> [] \<and> map (client_pdf X df d) sel = map Inr pdfs"
  then have "zip_entries X df sel d = Inr (zip (map report_name sel) pdfs)"
    by (simp add: zip_entries_all_ok)
  moreover have "map report_name sel = map (\<lambda>c. c @ ascii ''_Report.pdf'') sel"
    by (simp add: report_name_def)
  ultimately show "generate_zip X df sel d =
          Inr [DownloadButton ([128230] @ ascii '' Download ZIP'')
                 (Archive (zip (map (\<lambda>c. c @ ascii ''_Report.pdf'') sel) pdfs))
                 (ascii ''Client_Reports.zip'') (ascii ''application/zip'')]"
    using a by (simp add: generate_zip_def)
next
  assume a: "sel \<noteq> [] \<and> map (client_pdf X df d) sel = map Inr pdfs"
  then have "length (map (client_pdf X df d) sel) = length (map Inr pdfs :: (exn + pystr) list)"
    by simp
  then show "length pdfs = length sel"
    by simp
qed

theorem batch_outcome_witness:
  "(case (client_pdf X_ok (load no_decimals batch_sheet) () (ascii ''Zen''),
          client_pdf X_ok (load no_decimals batch_sheet) () (ascii ''Acme'')) of
      (Inr zen, Inr acme) \<Rightarrow>
        zen \<noteq> acme \<and>
        generate_zip X_ok (load no_decimals batch_sheet) [ascii ''Zen'', ascii ''Acme''] () =
          Inr [DownloadButton ([128230] @ ascii '' Download ZIP'')
                 (Archive [(ascii ''Zen_Report.pdf'', zen), (ascii ''Acme_Report.pdf'', acme)])
                 (ascii ''Client_Reports.zip'') (ascii ''application/zip'')]
    | _ \<Rightarrow> False)"
proof -
  let ?df = "load no_decimals batch_sheet"
  let ?z = "[rupee] @ ascii '' 25,000''"
  obtain hs where hs: "rows_html X_ok acme_table = Inr hs"
    using rows_html_acme by blast
  have acme: "client_pdf X_ok ?df () (ascii ''Acme'') = Inr (join [10] hs)"
    by (simp add: client_pdf_def client_table_batch_acme build_client_pdf_bytes_def
        build_unified_html_def X_ok_fields hs)
  obtain zen where zen: "client_pdf X_ok ?df () (ascii ''Zen'') = Inr zen"
    using client_pdf_zen by blast
  have app: "ascii ''Zen'' @ ascii ''_Report.pdf'' = ascii ''Zen_Report.pdf''"
    "ascii ''Acme'' @ ascii ''_Report.pdf'' = ascii ''Acme_Report.pdf''"
    by (simp_all add: ascii_def)
  have "build_client_pdf_bytes X_ok (ascii ''Zen'')
          [\<lparr>asset_type = ascii ''Equity'', val = Fin 25000, pct = Fin 25\<rparr>,
           \<lparr>asset_type = ascii ''Debt'', val = Fin 75000, pct = Fin 75\<rparr>,
           \<lparr>asset_type = ascii ''Total'', val = Fin 100000, pct = Fin 100\<rparr>] ()
        \<noteq> build_client_pdf_bytes X_ok (ascii ''Acme'') acme_table ()"
    by (simp add: acme_table_rows build_client_pdf_bytes_def build_unified_html_def
        X_ok_fields row_html_def format_25000 format_75000 format_50000 format_100000
        ascii_def)
  then have "client_pdf X_ok ?df () (ascii ''Zen'') \<noteq> client_pdf X_ok ?df () (ascii ''Acme'')"
    by (simp add: client_pdf_def client_table_zen client_table_batch_acme)
  then have ne: "zen \<noteq> join [10] hs"
    unfolding zen acme by simp
  note T = batch_outcome [of X_ok ?df "()" "[ascii ''Zen'', ascii ''Acme'']"
      "[zen, join [10] hs]"]
  from T zen acme have z: "generate_zip X_ok ?df [ascii ''Zen'', ascii ''Acme''] () =
          Inr [DownloadButton ([128230] @ ascii '' Download ZIP'')
                 (Archive [(ascii ''Zen_Report.pdf'', zen), (ascii ''Acme_Report.pdf'', join [10] hs)])
                 (ascii ''Client_Reports.zip'') (ascii ''application/zip'')]"
    by (simp add: app)
  show ?thesis
    unfolding zen acme using z ne by simp
qed

end
